theory Spec2Isabelle
  imports Complex_Main "HOL-Library.AList" "HOL-Library.Multiset" "HOL-Library.Product_Lexorder"
begin

section \<open>JavaScript values\<close>

text \<open>
  Request bodies, table rows and responses are JSON. A JSON object is an association
  list of its fields in insertion order; looking a field up is \<open>map_of\<close>, and a field
  that is absent reads as JavaScript's \<open>undefined\<close>, which is \<open>None\<close> here.
  Numbers are kept as mathematical integers: JavaScript computes with doubles and agrees
  with this on the safe integers (absolute value below \<open>2 ^ 53\<close>); fractional JSON
  numbers are outside the model.
\<close>

datatype jsval =
    JNull
  | JBool bool
  | JNum int
  | JStr string
  | JArr "jsval list"
  | JObj "(string \<times> jsval) list"

type_synonym jsobj = "(string \<times> jsval) list"

text \<open>ToBoolean: \<open>null\<close>, \<open>false\<close>, \<open>0\<close> and the empty string are falsy.\<close>

fun js_truthy :: "jsval \<Rightarrow> bool" where
  "js_truthy JNull = False"
| "js_truthy (JBool b) = b"
| "js_truthy (JNum n) = (n \<noteq> 0)"
| "js_truthy (JStr s) = (s \<noteq> [])"
| "js_truthy (JArr xs) = True"
| "js_truthy (JObj kvs) = True"

text \<open>\<open>a || b\<close>, where \<open>a\<close> may be \<open>undefined\<close>.\<close>

fun js_or :: "jsval option \<Rightarrow> jsval \<Rightarrow> jsval" where
  "js_or None b = b"
| "js_or (Some a) b = (if js_truthy a then a else b)"

text \<open>\<open>a ?? b\<close>: only \<open>undefined\<close> and \<open>null\<close> give way to \<open>b\<close>.\<close>

fun js_nullish :: "jsval option \<Rightarrow> jsval \<Rightarrow> jsval" where
  "js_nullish None b = b"
| "js_nullish (Some JNull) b = b"
| "js_nullish (Some a) b = a"

subsection \<open>Decimal rendering\<close>

definition digit_char :: "nat \<Rightarrow> char" where
  "digit_char d = ''0123456789'' ! (d mod 10)"

function show_nat :: "nat \<Rightarrow> string" where
  "show_nat n = (if n < 10 then [digit_char n] else show_nat (n div 10) @ [digit_char (n mod 10)])"
  by pat_completeness auto
termination
  by (relation "measure id") auto

declare show_nat.simps [simp del]

definition show_int :: "int \<Rightarrow> string" where
  "show_int i = (if i < 0 then CHR ''-'' # show_nat (nat (- i)) else show_nat (nat i))"

fun join_comma :: "string list \<Rightarrow> string" where
  "join_comma [] = []"
| "join_comma [s] = s"
| "join_comma (s # t # ss) = s @ '','' @ join_comma (t # ss)"

text \<open>
  \<open>String(v)\<close>, the text a template literal produces: an array joins its elements with
  commas (a \<open>null\<close> element gives the empty text), a plain object gives
  \<open>[object Object]\<close>.
\<close>

fun js_String :: "jsval \<Rightarrow> string" where
  "js_String JNull = ''null''"
| "js_String (JBool b) = (if b then ''true'' else ''false'')"
| "js_String (JNum n) = show_int n"
| "js_String (JStr s) = s"
| "js_String (JArr xs) = join_comma (map (\<lambda>x. if x = JNull then [] else js_String x) xs)"
| "js_String (JObj kvs) = ''[object Object]''"

fun js_String_opt :: "jsval option \<Rightarrow> string" where
  "js_String_opt None = ''undefined''"
| "js_String_opt (Some v) = js_String v"

text \<open>
  \<open>v + n\<close> for a number \<open>n\<close>: numbers, booleans and \<open>null\<close> add numerically, a string
  (and an array or object, through its text) is concatenated with the text of \<open>n\<close>.
\<close>

fun js_plus_num :: "jsval \<Rightarrow> int \<Rightarrow> jsval" where
  "js_plus_num (JNum m) n = JNum (m + n)"
| "js_plus_num (JBool b) n = JNum ((if b then 1 else 0) + n)"
| "js_plus_num JNull n = JNum n"
| "js_plus_num (JStr s) n = JStr (s @ show_int n)"
| "js_plus_num (JArr xs) n = JStr (js_String (JArr xs) @ show_int n)"
| "js_plus_num (JObj kvs) n = JStr (js_String (JObj kvs) @ show_int n)"

section \<open>Path identifiers\<close>

text \<open>
  The value of \<open>Number(s)\<close> for a string \<open>s\<close> of ASCII characters. A finite value is
  kept as the exact rational the literal denotes; JavaScript rounds it to the nearest
  double.
\<close>

datatype jsnum = NaN | Infinity bool | Finite rat

text \<open>
  ToBoolean of a number: \<open>NaN\<close> and zero are falsy. A literal that is not zero may
  still round to the double zero: it does exactly when its magnitude is at most half the
  least positive double, that is when \<open>\<bar>q\<bar> * 2 ^ 1075 \<le> 1\<close>.
\<close>

fun num_truthy :: "jsnum \<Rightarrow> bool" where
  "num_truthy NaN = False"
| "num_truthy (Infinity neg) = True"
| "num_truthy (Finite q) =
     (if q = 0 then False else if 1 \<le> \<bar>q\<bar> then True else 1 < \<bar>q\<bar> * 2 ^ 1075)"

text \<open>White space that \<open>Number\<close> trims, among the ASCII characters.\<close>

definition is_ws :: "char \<Rightarrow> bool" where
  "is_ws c = (c \<in> set [CHR 0x09, CHR 0x0A, CHR 0x0B, CHR 0x0C, CHR 0x0D, CHR '' ''])"

definition trim :: "string \<Rightarrow> string" where
  "trim s = rev (dropWhile is_ws (rev (dropWhile is_ws s)))"

definition digit_val :: "char \<Rightarrow> nat option" where
  "digit_val c =
     (let n = of_char c :: nat in
      if 48 \<le> n \<and> n \<le> 57 then Some (n - 48)
      else if 97 \<le> n \<and> n \<le> 102 then Some (n - 87)
      else if 65 \<le> n \<and> n \<le> 70 then Some (n - 55)
      else None)"

text \<open>The value of a non-empty run of digits in the given base; \<open>None\<close> otherwise.\<close>

fun digits_acc :: "nat \<Rightarrow> nat \<Rightarrow> string \<Rightarrow> nat option" where
  "digits_acc b acc [] = Some acc"
| "digits_acc b acc (c # cs) =
     (case digit_val c of
        None \<Rightarrow> None
      | Some d \<Rightarrow> if d < b then digits_acc b (acc * b + d) cs else None)"

definition digits_val :: "nat \<Rightarrow> string \<Rightarrow> nat option" where
  "digits_val b s = (if s = [] then None else digits_acc b 0 s)"

text \<open>A possibly empty run of decimal digits.\<close>

definition digits_opt :: "string \<Rightarrow> nat option" where
  "digits_opt s = digits_acc 10 0 s"

text \<open>The exponent part after \<open>e\<close>: an optional sign and decimal digits.\<close>

definition exponent_val :: "string \<Rightarrow> int option" where
  "exponent_val s =
     (case s of
        [] \<Rightarrow> None
      | c # cs \<Rightarrow>
          if c = CHR ''-'' then map_option (\<lambda>n. - int n) (digits_val 10 cs)
          else if c = CHR ''+'' then map_option int (digits_val 10 cs)
          else map_option int (digits_val 10 s))"

definition scale10 :: "nat \<Rightarrow> int \<Rightarrow> rat" where
  "scale10 m e = (if 0 \<le> e then of_nat m * 10 ^ nat e else of_nat m / 10 ^ nat (- e))"

text \<open>
  An unsigned decimal literal: digits with an optional fraction and an optional
  exponent, where the digits before or after the point may be missing, not both.
\<close>

definition unsigned_decimal :: "string \<Rightarrow> rat option" where
  "unsigned_decimal s =
     (let mant = takeWhile (\<lambda>c. c \<noteq> CHR ''e'' \<and> c \<noteq> CHR ''E'') s;
          rest = dropWhile (\<lambda>c. c \<noteq> CHR ''e'' \<and> c \<noteq> CHR ''E'') s;
          ex = (if rest = [] then Some 0 else exponent_val (tl rest));
          ip = takeWhile (\<lambda>c. c \<noteq> CHR ''.'') mant;
          fp = drop (Suc (length ip)) mant
      in if ip = [] \<and> fp = [] then None
         else (case (digits_opt ip, digits_opt fp, ex) of
                 (Some i, Some f, Some e) \<Rightarrow>
                   Some (scale10 (i * 10 ^ length fp + f) (e - int (length fp)))
               | _ \<Rightarrow> None))"

definition str_decimal :: "string \<Rightarrow> jsnum" where
  "str_decimal s =
     (let neg = (s \<noteq> [] \<and> hd s = CHR ''-'');
          body = (if s \<noteq> [] \<and> (hd s = CHR ''-'' \<or> hd s = CHR ''+'') then tl s else s)
      in if body = ''Infinity'' then Infinity neg
         else (case unsigned_decimal body of
                 None \<Rightarrow> NaN
               | Some q \<Rightarrow> Finite (if neg then - q else q)))"

definition radix_literal :: "string \<Rightarrow> nat option" where
  "radix_literal s =
     (case s of
        c0 # c1 # cs \<Rightarrow>
          if c0 \<noteq> CHR ''0'' then None
          else if c1 = CHR ''x'' \<or> c1 = CHR ''X'' then digits_val 16 cs
          else if c1 = CHR ''o'' \<or> c1 = CHR ''O'' then digits_val 8 cs
          else if c1 = CHR ''b'' \<or> c1 = CHR ''B'' then digits_val 2 cs
          else None
      | _ \<Rightarrow> None)"

text \<open>
  \<open>Number(s)\<close> on a string: trim white space; the empty text is zero; a hexadecimal,
  octal or binary literal, or a signed decimal literal, is its value; anything else is
  \<open>NaN\<close>.
\<close>

definition js_Number :: "string \<Rightarrow> jsnum" where
  "js_Number s =
     (let t = trim s in
      if t = [] then Finite 0
      else (case radix_literal t of
              Some n \<Rightarrow> Finite (of_nat n)
            | None \<Rightarrow> str_decimal t))"

datatype ident = IdNum jsnum | IdStr string

text \<open>\<open>const id = Number(req.params.id) || req.params.id\<close>\<close>

definition parse_id :: "string \<Rightarrow> ident" where
  "parse_id s = (let n = js_Number s in if num_truthy n then IdNum n else IdStr s)"

text \<open>
  \<open>String(id)\<close>, the text the client writes into the filter of the request. It is given
  for a string, for an infinity and for a literal whose value is an integer of magnitude
  at most \<open>2 ^ 53\<close>, which the double holds exactly and JavaScript prints in plain
  decimal. The decimal text of any other number is not modelled, and such an identifier
  matches no row.
\<close>

fun ident_text :: "ident \<Rightarrow> string option" where
  "ident_text (IdStr s) = Some s"
| "ident_text (IdNum NaN) = Some ''NaN''"
| "ident_text (IdNum (Infinity neg)) = Some (if neg then ''-Infinity'' else ''Infinity'')"
| "ident_text (IdNum (Finite q)) =
     (if of_int \<lfloor>q\<rfloor> = q \<and> \<bar>q\<bar> \<le> 2 ^ 53 then Some (show_int \<lfloor>q\<rfloor>) else None)"

section \<open>The remote store\<close>

text \<open>
  Modelled from the spec: the remote store and its client, which the repository only
  calls (section 6: a client exposing select, insert, update and delete, each returning
  either a result or an error). A table is the list of its rows and the next value of
  its identifier sequence. Every statement is given the fault, if any, that the
  environment makes it fail with (an outage, a violated constraint, a rejected value):
  a failed statement changes nothing and returns the error object. The client reports a
  failure in the \<open>error\<close> component of its result and never rejects, and nothing else in
  the handlers raises, so their \<open>catch\<close> clauses are not reached and not modelled.
\<close>

type_synonym store_error = jsobj
type_synonym fault = "store_error option"

record table =
  rows :: "jsobj list"
  next_id :: int

record store =
  users :: table
  attendanceHistory :: table

text \<open>
  The faults of a request are listed in the order of the statements it issues; a
  statement beyond the end of the list does not fail.
\<close>

definition fault_at :: "fault list \<Rightarrow> nat \<Rightarrow> fault" where
  "fault_at fs n = (if n < length fs then fs ! n else None)"

text \<open>
  Modelled from the spec: a filter matches a record on a field exactly (section 4.2).
  The client writes the value into the request as text, so an \<open>eq\<close> filter compares the
  text of the column value with the text of the value the handler passed. SQL's null
  equals nothing.
\<close>

fun pg_text :: "jsval \<Rightarrow> string option" where
  "pg_text (JNum n) = Some (show_int n)"
| "pg_text (JStr s) = Some s"
| "pg_text (JBool b) = Some (if b then ''true'' else ''false'')"
| "pg_text JNull = None"
| "pg_text (JArr xs) = None"
| "pg_text (JObj kvs) = None"

definition eq_filter :: "string \<Rightarrow> string option \<Rightarrow> jsobj \<Rightarrow> bool" where
  "eq_filter col txt r =
     (case txt of
        None \<Rightarrow> False
      | Some t \<Rightarrow> (case map_of r col of None \<Rightarrow> False | Some c \<Rightarrow> pg_text c = Some t))"

type_synonym filters = "(string \<times> string option) list"

definition row_matches :: "filters \<Rightarrow> jsobj \<Rightarrow> bool" where
  "row_matches flt r = list_all (\<lambda>(col, txt). eq_filter col txt r) flt"

text \<open>
  Modelled from the spec: the store's ordering by a numeric column (section 4.1, records
  ordered ascending by \<open>order\<close>). A number sorts by its value, anything else as SQL's
  null, which is greater than every number (last when ascending, first when
  descending).
\<close>

definition order_key :: "string \<Rightarrow> jsobj \<Rightarrow> bool \<times> int" where
  "order_key col r = (case map_of r col of Some (JNum n) \<Rightarrow> (False, n) | _ \<Rightarrow> (True, 0))"

definition project :: "string list \<Rightarrow> jsobj \<Rightarrow> jsobj" where
  "project cols r = map (\<lambda>c. (c, case map_of r c of None \<Rightarrow> JNull | Some v \<Rightarrow> v)) cols"

text \<open>
  Modelled from the spec: the store's \<open>select(table, filter, order, limit)\<close> of section
  6, called as \<open>select(cols)\<close> with \<open>eq\<close> filters, an optional
  \<open>order(col, {ascending})\<close> and an optional \<open>limit(n)\<close>: filter, sort, cut, project.
\<close>

definition store_select ::
  "fault \<Rightarrow> string list option \<Rightarrow> filters \<Rightarrow> (string \<times> bool) option \<Rightarrow> nat option \<Rightarrow> table
     \<Rightarrow> store_error + jsobj list" where
  "store_select f cols flt ord limit t =
     (case f of
        Some e \<Rightarrow> Inl e
      | None \<Rightarrow>
          (let matched = filter (row_matches flt) (rows t);
               sorted_rows = (case ord of
                          None \<Rightarrow> matched
                        | Some (col, ascending) \<Rightarrow>
                            if ascending then sort_key (order_key col) matched
                            else rev (sort_key (order_key col) matched));
               cut = (case limit of None \<Rightarrow> sorted_rows | Some n \<Rightarrow> take n sorted_rows)
           in Inr (case cols of None \<Rightarrow> cut | Some cs \<Rightarrow> map (project cs) cut)))"

text \<open>
  Modelled from the spec: the store's \<open>insert(table, row)\<close> of section 6, called as
  \<open>insert(row).select().single()\<close>. The row is stored as given; when it has no \<open>id\<close>
  field the store takes the identifier from the table's sequence (sections 3 and 4:
  the identifier is assigned by the store, and the inserted record is returned with
  it).
\<close>

definition store_insert :: "fault \<Rightarrow> jsobj \<Rightarrow> table \<Rightarrow> store_error + (jsobj \<times> table)" where
  "store_insert f r t =
     (case f of
        Some e \<Rightarrow> Inl e
      | None \<Rightarrow>
          (case map_of r ''id'' of
             Some v \<Rightarrow> Inr (r, t\<lparr>rows := rows t @ [r]\<rparr>)
           | None \<Rightarrow>
               (let r' = (''id'', JNum (next_id t)) # r
                in Inr (r', t\<lparr>rows := rows t @ [r'], next_id := next_id t + 1\<rparr>))))"

text \<open>
  Modelled from the spec: the store's \<open>update(table, row, filter)\<close> of section 6. It
  sets the given fields on every row that matches and leaves the rest (section 4.1: the
  update is field-wise, not whole-record).
\<close>

definition apply_update :: "jsobj \<Rightarrow> filters \<Rightarrow> jsobj list \<Rightarrow> jsobj list" where
  "apply_update flds flt rs = map (\<lambda>r. if row_matches flt r then AList.merge r flds else r) rs"

definition store_update :: "fault \<Rightarrow> jsobj \<Rightarrow> filters \<Rightarrow> table \<Rightarrow> store_error + table" where
  "store_update f flds flt t =
     (case f of
        Some e \<Rightarrow> Inl e
      | None \<Rightarrow> Inr (t\<lparr>rows := apply_update flds flt (rows t)\<rparr>))"

text \<open>
  Modelled from the spec: the store's "no row returned" condition (section 4.1), which
  is the error of \<open>single()\<close> when the statement yields \<open>n\<close> rows, none or several. The
  statement is then undone.
\<close>

definition no_single_row :: "nat \<Rightarrow> store_error" where
  "no_single_row n =
     [(''code'', JStr ''PGRST116''),
      (''details'', JStr (''The result contains '' @ show_nat n @ '' rows'')),
      (''hint'', JNull),
      (''message'', JStr ''Cannot coerce the result to a single JSON object'')]"

text \<open>
  Modelled from the spec: the update keyed by identifier that returns the updated
  record (section 4.1), called as \<open>update(flds).eq(...).select().single()\<close>.
\<close>

definition store_update_single ::
  "fault \<Rightarrow> jsobj \<Rightarrow> filters \<Rightarrow> table \<Rightarrow> store_error + (jsobj \<times> table)" where
  "store_update_single f flds flt t =
     (case f of
        Some e \<Rightarrow> Inl e
      | None \<Rightarrow>
          (case filter (row_matches flt) (rows t) of
             [r] \<Rightarrow> Inr (AList.merge r flds, t\<lparr>rows := apply_update flds flt (rows t)\<rparr>)
           | rs \<Rightarrow> Inl (no_single_row (length rs))))"

text \<open>
  Modelled from the spec: the store's \<open>delete(table, filter)\<close> of section 6, called as
  \<open>delete().eq(...)\<close> with no \<open>single()\<close>. It removes the rows that match (section 4.1).
  Matching none is no error of the store: of the store's errors section 7 lists
  not-found on update only, which is the condition that \<open>single()\<close> raises.
\<close>

definition store_delete :: "fault \<Rightarrow> filters \<Rightarrow> table \<Rightarrow> store_error + table" where
  "store_delete f flt t =
     (case f of
        Some e \<Rightarrow> Inl e
      | None \<Rightarrow> Inr (t\<lparr>rows := filter (\<lambda>r. \<not> row_matches flt r) (rows t)\<rparr>))"

section \<open>The request handlers\<close>

text \<open>
  A handler takes the faults of the statements it issues, in order, the path
  identifier and the parsed body where the route has them, and the store. It yields the
  response, the lines written to the error console, and the store afterwards. A request
  without a body has \<open>None\<close> for it.
\<close>

record response =
  status :: nat
  json :: jsval

record outcome =
  reply :: response
  console :: "(string \<times> store_error) list"
  db :: store

text \<open>\<open>res.status(code).json(v)\<close>; \<open>res.json(v)\<close> is the same with status 200.\<close>

definition send_json :: "nat \<Rightarrow> jsval \<Rightarrow> store \<Rightarrow> outcome" where
  "send_json code v st = \<lparr>reply = \<lparr>status = code, json = v\<rparr>, console = [], db = st\<rparr>"

text \<open>
  \<open>handleErr(res, where, err)\<close> logs the place and the error, and answers 500 with
  \<open>err?.message || err\<close> as the detail.
\<close>

definition handleErr :: "string \<Rightarrow> store_error \<Rightarrow> store \<Rightarrow> outcome" where
  "handleErr place err st =
     \<lparr>reply = \<lparr>status = 500,
                json = JObj [(''error'', JStr ''Server xatosi''),
                             (''detail'', js_or (map_of err ''message'') (JObj err))]\<rparr>,
      console = [(place, err)],
      db = st\<rparr>"

text \<open>\<open>req.body || {}\<close>, and \<open>{ ...req.body }\<close>, of a body that may be missing.\<close>

fun body_or_empty :: "jsobj option \<Rightarrow> jsobj" where
  "body_or_empty None = []"
| "body_or_empty (Some b) = b"

subsection \<open>Users\<close>

text \<open>GET /users\<close>

definition get_users :: "fault list \<Rightarrow> store \<Rightarrow> outcome" where
  "get_users fs st =
     (case store_select (fault_at fs 0) None [] (Some (''order'', True)) None (users st) of
        Inl error \<Rightarrow> handleErr ''GET /users supabase error'' error st
      | Inr data \<Rightarrow> send_json 200 (JArr (map JObj data)) st)"

text \<open>\<open>(maxOrderRows && maxOrderRows[0]?.order) || 0\<close>\<close>

definition lastOrder_of :: "jsobj list \<Rightarrow> jsval" where
  "lastOrder_of maxOrderRows =
     js_or (case maxOrderRows of [] \<Rightarrow> None | r # _ \<Rightarrow> map_of r ''order'') (JNum 0)"

text \<open>\<open>{ ...body, order: newOrder, checked: body.checked ?? false }\<close>\<close>

definition payload_of :: "jsobj \<Rightarrow> jsval \<Rightarrow> jsobj" where
  "payload_of body newOrder =
     AList.update ''checked'' (js_nullish (map_of body ''checked'') (JBool False))
       (AList.update ''order'' newOrder body)"

text \<open>POST /users\<close>

definition post_users :: "fault list \<Rightarrow> jsobj option \<Rightarrow> store \<Rightarrow> outcome" where
  "post_users fs req_body st =
     (let body = body_or_empty req_body in
      case store_select (fault_at fs 0) (Some [''order'']) [] (Some (''order'', False)) (Some 1) (users st) of
           Inl maxOrderErr \<Rightarrow> handleErr ''POST /users get max order'' maxOrderErr st
         | Inr maxOrderRows \<Rightarrow>
             (let lastOrder = lastOrder_of maxOrderRows;
                  newOrder = js_plus_num lastOrder 1;
                  payload = payload_of body newOrder
              in case store_insert (fault_at fs 1) payload (users st) of
                   Inl error \<Rightarrow> handleErr ''POST /users insert'' error st
                 | Inr (data, t) \<Rightarrow> send_json 201 (JObj data) (st\<lparr>users := t\<rparr>)))"

text \<open>PUT /users/:id\<close>

definition put_users :: "fault list \<Rightarrow> string \<Rightarrow> jsobj option \<Rightarrow> store \<Rightarrow> outcome" where
  "put_users fs param_id req_body st =
     (let id' = parse_id param_id;
          update = AList.delete ''id'' (body_or_empty req_body)
      in case store_update_single (fault_at fs 0) update [(''id'', ident_text id')] (users st) of
           Inl error \<Rightarrow> handleErr ''PUT /users update'' error st
         | Inr (data, t) \<Rightarrow> send_json 200 (JObj data) (st\<lparr>users := t\<rparr>))"

text \<open>PATCH /users/:id\<close>

definition patch_users :: "fault list \<Rightarrow> string \<Rightarrow> jsobj option \<Rightarrow> store \<Rightarrow> outcome" where
  "patch_users fs param_id req_body st =
     (let id' = parse_id param_id;
          update = AList.delete ''id'' (body_or_empty req_body)
      in case store_update_single (fault_at fs 0) update [(''id'', ident_text id')] (users st) of
           Inl error \<Rightarrow> handleErr ''PATCH /users update'' error st
         | Inr (data, t) \<Rightarrow> send_json 200 (JObj data) (st\<lparr>users := t\<rparr>))"

text \<open>
  The loop of DELETE /users/:id over the rows \<open>all\<close> fetched before it, from index \<open>i\<close>
  on: a row whose \<open>order\<close> is not the number \<open>i + 1\<close> has it set by an update keyed by the
  row's \<open>id\<close>. The result of that update is not looked at.
\<close>

fun resequence :: "fault list \<Rightarrow> jsobj list \<Rightarrow> nat \<Rightarrow> table \<Rightarrow> table" where
  "resequence fs [] i t = t"
| "resequence fs (r # rs) i t =
     (if map_of r ''order'' \<noteq> Some (JNum (int i + 1)) then
        (case store_update (fault_at fs 0) [(''order'', JNum (int i + 1))]
                [(''id'', Some (js_String_opt (map_of r ''id'')))] t of
           Inl e \<Rightarrow> resequence (drop 1 fs) rs (Suc i) t
         | Inr t' \<Rightarrow> resequence (drop 1 fs) rs (Suc i) t')
      else resequence fs rs (Suc i) t)"

definition success_true :: jsval where
  "success_true = JObj [(''success'', JBool True)]"

text \<open>DELETE /users/:id\<close>

definition delete_users :: "fault list \<Rightarrow> string \<Rightarrow> store \<Rightarrow> outcome" where
  "delete_users fs param_id st =
     (let id' = parse_id param_id
      in case store_delete (fault_at fs 0) [(''id'', ident_text id')] (users st) of
           Inl error \<Rightarrow> handleErr ''DELETE /users'' error st
         | Inr t1 \<Rightarrow>
             (case store_select (fault_at fs 1) None [] (Some (''order'', True)) None t1 of
                Inl allErr \<Rightarrow> handleErr ''DELETE /users re-fetch'' allErr (st\<lparr>users := t1\<rparr>)
              | Inr all \<Rightarrow>
                  send_json 200 success_true (st\<lparr>users := resequence (drop 2 fs) all 0 t1\<rparr>)))"

subsection \<open>Attendance history\<close>

text \<open>GET /attendanceHistory\<close>

definition get_attendanceHistory :: "fault list \<Rightarrow> store \<Rightarrow> outcome" where
  "get_attendanceHistory fs st =
     (case store_select (fault_at fs 0) None [] (Some (''id'', True)) None (attendanceHistory st) of
        Inl error \<Rightarrow> handleErr ''GET /attendanceHistory'' error st
      | Inr data \<Rightarrow> send_json 200 (JArr (map JObj data)) st)"





section \<open>Notions used in the properties\<close>

text \<open>
  The body of an internal error: status 500 and an object with the fixed \<open>error\<close> text
  and a \<open>detail\<close>.
\<close>

definition is_internal_error :: "response \<Rightarrow> bool" where
  "is_internal_error r =
     (status r = 500 \<and>
      (case json r of
         JObj [(k1, JStr m), (k2, d)] \<Rightarrow> k1 = ''error'' \<and> m = ''Server xatosi'' \<and> k2 = ''detail''
       | _ \<Rightarrow> False))"


text \<open>
  The row the store keeps for an inserted row, and what the statement for the greatest
  \<open>order\<close> returns when it does not fail.
\<close>

definition stored :: "table \<Rightarrow> jsobj \<Rightarrow> jsobj" where
  "stored t r = (case map_of r ''id'' of None \<Rightarrow> (''id'', JNum (next_id t)) # r | Some v \<Rightarrow> r)"

definition maxOrderRows_of :: "table \<Rightarrow> jsobj list" where
  "maxOrderRows_of t = map (project [''order'']) (take 1 (rev (sort_key (order_key ''order'') (rows t))))"

text \<open>
  The text under which the store compares a row's \<open>id\<close>, and the users table's primary
  key: every row has such a text and no two rows share it.
\<close>

definition id_text_of :: "jsobj \<Rightarrow> string option" where
  "id_text_of r = (case map_of r ''id'' of None \<Rightarrow> None | Some v \<Rightarrow> pg_text v)"

definition primary_key :: "jsobj list \<Rightarrow> bool" where
  "primary_key rs = (list_all (\<lambda>r. id_text_of r \<noteq> None) rs \<and> distinct (map id_text_of rs))"

text \<open>The users that a DELETE /users/:id leaves, in table order.\<close>

definition survivors :: "string \<Rightarrow> store \<Rightarrow> jsobj list" where
  "survivors param_id st =
     filter (\<lambda>r. \<not> row_matches [(''id'', ident_text (parse_id param_id))] r) (rows (users st))"

text \<open>
  What the loop of DELETE /users/:id makes of a table row \<open>x\<close> when every update succeeds:
  the row is looked up by its \<open>id\<close> among the fetched rows, and receives the position it
  is found at.
\<close>

fun renumber :: "jsobj list \<Rightarrow> nat \<Rightarrow> jsobj \<Rightarrow> jsobj" where
  "renumber [] i x = x"
| "renumber (r # rs) i x =
     (if id_text_of x = id_text_of r then
        (if map_of r ''order'' \<noteq> Some (JNum (int i + 1))
         then AList.merge x [(''order'', JNum (int i + 1))] else x)
      else renumber rs (Suc i) x)"

subsection \<open>A small roster\<close>

definition ann :: jsobj where
  "ann = [(''id'', JNum 1), (''name'', JStr ''Ann''), (''order'', JNum 1), (''checked'', JBool False)]"

definition bob :: jsobj where
  "bob = [(''id'', JNum 2), (''name'', JStr ''Bob''), (''order'', JNum 2), (''checked'', JBool True)]"

definition cyd :: jsobj where
  "cyd = [(''id'', JNum 3), (''name'', JStr ''Cyd''), (''order'', JNum 3), (''checked'', JBool False)]"

definition roster :: store where
  "roster = \<lparr>users = \<lparr>rows = [cyd, ann, bob], next_id = 4\<rparr>,
             attendanceHistory = \<lparr>rows = [], next_id = 1\<rparr>\<rparr>"

definition outage :: store_error where
  "outage = [(''message'', JStr ''fetch failed'')]"

definition dee :: jsobj where
  "dee = [(''id'', JNum 7), (''name'', JStr ''Dee''), (''order'', JNum 99), (''checked'', JNull)]"







section \<open>Properties\<close>

lemma fault_at_simps [simp]:
  "fault_at [] n = None"
  "fault_at (f # fs) 0 = f"
  "fault_at (f # fs) (Suc n) = fault_at fs n"
  by (simp_all add: fault_at_def)

lemma handleErr_internal: "is_internal_error (reply (handleErr place e st))"
  by (simp add: handleErr_def is_internal_error_def)


lemma row_matches_Nil [simp]: "row_matches [] r"
  by (simp add: row_matches_def)

lemma select_all_ordered:
  "store_select None None [] (Some (c, True)) None t = Inr (sort_key (order_key c) (rows t))"
  by (simp add: store_select_def)

lemma payload_order: "map_of (payload_of body n) ''order'' = Some n"
  by (simp add: payload_of_def update_conv')

lemma payload_id: "map_of (payload_of body n) ''id'' = map_of body ''id''"
  by (simp add: payload_of_def update_conv')

lemma payload_checked:
  "map_of (payload_of body n) ''checked'' = Some (js_nullish (map_of body ''checked'') (JBool False))"
  by (simp add: payload_of_def update_conv')

lemma store_insert_ok:
  "store_insert None r t =
     Inr (stored t r, t\<lparr>rows := rows t @ [stored t r],
                        next_id := (if map_of r ''id'' = None then next_id t + 1 else next_id t)\<rparr>)"
  by (simp add: store_insert_def stored_def Let_def split: option.splits)

lemma map_of_stored: "k \<noteq> ''id'' \<Longrightarrow> map_of (stored t r) k = map_of r k"
  by (simp add: stored_def split: option.splits)

lemma map_of_stored_id: "map_of r ''id'' = Some v \<Longrightarrow> map_of (stored t r) ''id'' = Some v"
  by (simp add: stored_def)

lemma select_max_order:
  "store_select None (Some [''order'']) [] (Some (''order'', False)) (Some 1) t = Inr (maxOrderRows_of t)"
  by (simp add: store_select_def maxOrderRows_of_def)

lemma post_users_ok:
  assumes "fault_at fs 0 = None" "fault_at fs 1 = None"
  shows "post_users fs rb st =
     (let p = payload_of (body_or_empty rb) (js_plus_num (lastOrder_of (maxOrderRows_of (users st))) 1)
      in send_json 201 (JObj (stored (users st) p))
           (st\<lparr>users := (users st)\<lparr>rows := rows (users st) @ [stored (users st) p],
                  next_id := (if map_of p ''id'' = None then next_id (users st) + 1 else next_id (users st))\<rparr>\<rparr>))"
  unfolding post_users_def assms select_max_order store_insert_ok Let_def by simp



lemma order_key_num: "map_of r c = Some (JNum n) \<Longrightarrow> order_key c r = (False, n)"
  by (simp add: order_key_def)




lemma post_users_created:
  assumes "status (reply (post_users fs rb st)) = 201"
  shows "fault_at fs 0 = None \<and> fault_at fs 1 = None"
proof -
  have "status (reply (post_users fs rb st)) = 500" if "fault_at fs 0 = Some e" for e
    using that by (simp add: post_users_def store_select_def handleErr_def)
  moreover have "status (reply (post_users fs rb st)) = 500"
    if "fault_at fs 0 = None" "fault_at fs 1 = Some e" for e
    unfolding post_users_def that select_max_order Let_def
    by (simp add: store_insert_def handleErr_def)
  ultimately show ?thesis using assms
    by (cases "fault_at fs 0"; cases "fault_at fs 1") auto
qed




lemma apply_update_length [simp]: "length (apply_update u flt rs) = length rs"
  by (simp add: apply_update_def)




lemma pg_text_js_String: "pg_text v = Some t \<Longrightarrow> js_String v = t"
  by (cases v) (auto split: if_splits)

lemma id_filter_iff:
  assumes "id_text_of r \<noteq> None"
  shows "row_matches [(''id'', Some (js_String_opt (map_of r ''id'')))] x \<longleftrightarrow> id_text_of x = id_text_of r"
proof -
  from assms obtain v t where v: "map_of r ''id'' = Some v" "pg_text v = Some t"
    by (auto simp: id_text_of_def split: option.splits)
  then have "js_String_opt (map_of r ''id'') = t" by (simp add: pg_text_js_String)
  with v show ?thesis
    by (auto simp: row_matches_def eq_filter_def id_text_of_def split: option.splits)
qed

lemma id_text_of_set_order [simp]: "id_text_of (AList.update ''order'' v x) = id_text_of x"
  by (simp add: id_text_of_def update_conv')

lemma map_of_set_order:
  "map_of (AList.update ''order'' v x) k = (if k = ''order'' then Some v else map_of x k)"
  by (simp add: update_conv')

lemma renumber_other: "id_text_of x \<notin> set (map id_text_of rs) \<Longrightarrow> renumber rs i x = x"
  by (induction rs arbitrary: i) auto

lemma renumber_fields: "k \<noteq> ''order'' \<Longrightarrow> map_of (renumber rs i x) k = map_of x k"
  by (induction rs arbitrary: i) (auto simp: map_of_set_order)

lemma renumber_id [simp]: "id_text_of (renumber rs i x) = id_text_of x"
  by (induction rs arbitrary: i) auto

lemma renumber_nth:
  "distinct (map id_text_of rs) \<Longrightarrow> j < length rs \<Longrightarrow>
   map_of (renumber rs i (rs ! j)) ''order'' = Some (JNum (int (i + j) + 1))"
proof (induction rs arbitrary: i j)
  case Nil
  then show ?case by simp
next
  case (Cons r rs)
  show ?case
  proof (cases j)
    case 0
    then show ?thesis by (simp add: map_of_set_order)
  next
    case (Suc j')
    with Cons.prems have "id_text_of (rs ! j') \<noteq> id_text_of r" "j' < length rs"
      by (auto simp: image_iff) (metis nth_mem)
    with Cons.IH [of j' "Suc i"] Cons.prems Suc show ?thesis by simp
  qed
qed

lemma no_faults_at: "list_all (\<lambda>f. f = None) fs \<Longrightarrow> fault_at fs n = None"
  by (simp add: fault_at_def list_all_length)

lemma no_faults_drop: "list_all (\<lambda>f. f = None) fs \<Longrightarrow> list_all (\<lambda>f. f = None) (drop n fs)"
  by (simp add: list_all_iff) (meson in_set_dropD)

lemma resequence_renumber:
  "list_all (\<lambda>r. id_text_of r \<noteq> None) rs \<Longrightarrow> distinct (map id_text_of rs) \<Longrightarrow>
   list_all (\<lambda>f. f = None) fs \<Longrightarrow>
   resequence fs rs i t = t\<lparr>rows := map (renumber rs i) (rows t)\<rparr>"
proof (induction rs arbitrary: fs i t)
  case Nil
  then show ?case by simp
next
  case (Cons r rs)
  let ?v = "JNum (int i + 1)"
  from Cons.prems have r: "id_text_of r \<noteq> None" "id_text_of r \<notin> set (map id_text_of rs)"
    and rs: "list_all (\<lambda>r. id_text_of r \<noteq> None) rs" "distinct (map id_text_of rs)"
    by simp_all
  have fixed: "renumber rs (Suc i) y = y" if "id_text_of y = id_text_of r" for y
    using that r(2) by (intro renumber_other) simp
  show ?case
  proof (cases "map_of r ''order'' \<noteq> Some ?v")
    case True
    let ?t' = "t\<lparr>rows := apply_update [(''order'', ?v)]
                  [(''id'', Some (js_String_opt (map_of r ''id'')))] (rows t)\<rparr>"
    have "resequence fs (r # rs) i t = resequence (drop 1 fs) rs (Suc i) ?t'"
      using True Cons.prems(3) by (simp add: no_faults_at store_update_def)
    also have "\<dots> = ?t'\<lparr>rows := map (renumber rs (Suc i)) (rows ?t')\<rparr>"
      using rs Cons.prems(3) by (intro Cons.IH no_faults_drop)
    also have "\<dots> = t\<lparr>rows := map (renumber (r # rs) i) (rows t)\<rparr>"
      using True by (simp add: apply_update_def id_filter_iff [OF r(1)] fixed comp_def)
    finally show ?thesis .
  next
    case False
    have "resequence fs (r # rs) i t = resequence fs rs (Suc i) t"
      using False by simp
    also have "\<dots> = t\<lparr>rows := map (renumber rs (Suc i)) (rows t)\<rparr>"
      using rs Cons.prems(3) by (intro Cons.IH)
    also have "\<dots> = t\<lparr>rows := map (renumber (r # rs) i) (rows t)\<rparr>"
      using False by (simp add: fixed)
    finally show ?thesis .
  qed
qed

lemma primary_key_filter: "primary_key rs \<Longrightarrow> primary_key (filter P rs)"
  by (simp add: primary_key_def list_all_iff distinct_map_filter)

lemma primary_key_sort: "primary_key rs \<Longrightarrow> primary_key (sort_key f rs)"
  by (simp add: primary_key_def list_all_iff distinct_map)

lemma delete_users_ok:
  assumes pk: "primary_key (rows (users st))" and ok: "list_all (\<lambda>f. f = None) fs"
  shows "delete_users fs pid st =
     send_json 200 success_true
       (st\<lparr>users := (users st)\<lparr>rows :=
          map (renumber (sort_key (order_key ''order'') (survivors pid st)) 0) (survivors pid st)\<rparr>\<rparr>)"
proof -
  let ?S = "survivors pid st"
  let ?all = "sort_key (order_key ''order'') ?S"
  let ?t1 = "(users st)\<lparr>rows := ?S\<rparr>"
  have "primary_key ?all"
    unfolding survivors_def by (intro primary_key_sort primary_key_filter pk)
  then have "resequence (drop 2 fs) ?all 0 ?t1 = ?t1\<lparr>rows := map (renumber ?all 0) (rows ?t1)\<rparr>"
    unfolding primary_key_def using ok by (intro resequence_renumber no_faults_drop) simp_all
  then show ?thesis
    unfolding delete_users_def Let_def no_faults_at [OF ok] store_delete_def
    by (simp add: select_all_ordered survivors_def)
qed

lemma sorted_keys_numbers:
  assumes "sorted (map (order_key c) data)" "i < j" "j < length data"
    "map_of (data ! i) c = Some (JNum a)" "map_of (data ! j) c = Some (JNum b)"
  shows "a \<le> b"
proof -
  from assms(1-3) have "map (order_key c) data ! i \<le> map (order_key c) data ! j"
    by (intro sorted_nth_mono) simp_all
  with assms show ?thesis by (simp add: order_key_num)
qed

lemma sorted_nth_less:
  assumes "sorted (map f xs)" "a < length xs" "b < length xs" "f (xs ! a) < f (xs ! b)"
  shows "a < b"
proof (rule ccontr)
  assume "\<not> a < b"
  then have "b \<le> a" by simp
  with assms(1,2) have "map f xs ! b \<le> map f xs ! a"
    by (intro sorted_nth_mono) simp_all
  with assms show False by simp
qed

subsection \<open>Path identifiers\<close>

text \<open>
  C6. The identifier \<open>0\<close> parses as the number zero, which is falsy, so the handler
  keeps the string: a path identifier that parses as a number is not always converted.
\<close>

theorem parse_id_zero: "js_Number ''0'' = Finite 0 \<and> parse_id ''0'' = IdStr ''0''"
  by code_simp

subsection \<open>PUT and PATCH on a user\<close>

text \<open>
  C7. On the same faults, identifier, body and store, PATCH /users/:id leaves the same
  store and sends the same response as PUT /users/:id; the two differ only in the
  place they write to the error console.
\<close>

theorem put_patch_same:
  "reply (patch_users fs pid b st) = reply (put_users fs pid b st) \<and>
   db (patch_users fs pid b st) = db (put_users fs pid b st)"
  by (simp add: patch_users_def put_users_def handleErr_def send_json_def Let_def
      split: sum.splits prod.splits)

lemma put_patch_console:
  "console (put_users [Some outage] ''1'' None roster) = [(''PUT /users update'', outage)] \<and>
   console (patch_users [Some outage] ''1'' None roster) = [(''PATCH /users update'', outage)]"
  by code_simp

subsection \<open>What DELETE /users/:id answers\<close>

text \<open>
  C4, as the claim states it, fails: when the delete statement succeeds and the re-read
  of the table fails, the answer is 500.
\<close>

theorem delete_users_reread_fails:
  "fault_at [None, Some outage] 0 = None \<and>
   status (reply (delete_users [None, Some outage] ''1'' roster)) = 500"
  by code_simp

text \<open>
  C4, amended. When the delete statement succeeds, the answer depends on the re-read
  alone: if the re-read succeeds the answer is 200 with \<open>{success: true}\<close>, whatever
  happens to the corrective updates; if the re-read fails the answer is the internal
  error of that failure.
\<close>

theorem delete_users_reply:
  assumes "fault_at fs 0 = None"
  shows "(fault_at fs 1 = None \<longrightarrow>
            reply (delete_users fs pid st) = \<lparr>status = 200, json = success_true\<rparr>) \<and>
         (\<forall>e. fault_at fs 1 = Some e \<longrightarrow>
            reply (delete_users fs pid st) = reply (handleErr ''DELETE /users re-fetch'' e st))"
  using assms
  by (simp add: delete_users_def store_delete_def store_select_def handleErr_def send_json_def
      Let_def)

theorem delete_users_reply_witness:
  "reply (delete_users [None, None, Some outage] ''1'' roster) =
     \<lparr>status = 200, json = success_true\<rparr> \<and>
   reply (delete_users [None, Some outage] ''1'' roster) =
     reply (handleErr ''DELETE /users re-fetch'' outage roster)"
proof -
  have a: "fault_at [None, None, Some outage] 0 = None"
    "fault_at [None, None, Some outage] 1 = None"
    by (simp_all add: fault_at_def)
  have b: "fault_at [None, Some outage] 0 = None"
    "fault_at [None, Some outage] 1 = Some outage"
    by (simp_all add: fault_at_def)
  from delete_users_reply [OF a(1), of "''1''" roster]
    delete_users_reply [OF b(1), of "''1''" roster] a b
  show ?thesis by blast
qed

subsection \<open>Identifiers that match no record\<close>




subsection \<open>Listing the users\<close>

text \<open>
  C9, as the claim states it, fails: when the store fails the query, GET /users answers
  500.
\<close>

theorem get_users_fails:
  "fault_at [Some outage] 0 = Some outage \<and> status (reply (get_users [Some outage] roster)) = 500"
  by code_simp

text \<open>
  C9, amended. When the store answers the query, GET /users answers 200 with a JSON
  array that holds exactly the user records (possibly none), sorted by the key of their
  \<open>order\<close> field, so that of two records with numbers as \<open>order\<close> the earlier has the
  smaller or equal number; when the query fails it answers with the internal error. The
  store is left as it is.
\<close>

theorem get_users_sorted:
  "(fault_at fs 0 = None \<longrightarrow>
      (\<exists>data. reply (get_users fs st) = \<lparr>status = 200, json = JArr (map JObj data)\<rparr> \<and>
           mset data = mset (rows (users st)) \<and>
           sorted (map (order_key ''order'') data) \<and>
           (\<forall>i j a b. i < j \<and> j < length data \<and>
              map_of (data ! i) ''order'' = Some (JNum a) \<and>
              map_of (data ! j) ''order'' = Some (JNum b) \<longrightarrow> a \<le> b))) \<and>
   (\<forall>e. fault_at fs 0 = Some e \<longrightarrow> is_internal_error (reply (get_users fs st))) \<and>
   db (get_users fs st) = st"
proof (intro conjI impI allI)
  let ?data = "sort_key (order_key ''order'') (rows (users st))"
  assume "fault_at fs 0 = None"
  then have "get_users fs st = send_json 200 (JArr (map JObj ?data)) st"
    by (simp add: get_users_def select_all_ordered)
  moreover have "\<forall>i j a b. i < j \<and> j < length ?data \<and>
              map_of (?data ! i) ''order'' = Some (JNum a) \<and>
              map_of (?data ! j) ''order'' = Some (JNum b) \<longrightarrow> a \<le> b"
    using sorted_keys_numbers [OF sorted_sort_key] by blast
  ultimately show "\<exists>data. reply (get_users fs st) = \<lparr>status = 200, json = JArr (map JObj data)\<rparr> \<and>
           mset data = mset (rows (users st)) \<and> sorted (map (order_key ''order'') data) \<and>
           (\<forall>i j a b. i < j \<and> j < length data \<and>
              map_of (data ! i) ''order'' = Some (JNum a) \<and>
              map_of (data ! j) ''order'' = Some (JNum b) \<longrightarrow> a \<le> b)"
    by (intro exI [of _ ?data]) (simp add: send_json_def)
next
  fix e assume "fault_at fs 0 = Some e"
  then show "is_internal_error (reply (get_users fs st))"
    by (simp add: get_users_def store_select_def handleErr_internal)
next
  show "db (get_users fs st) = st"
    by (cases "fault_at fs 0")
      (simp_all add: get_users_def store_select_def send_json_def handleErr_def)
qed

theorem get_users_sorted_witness:
  "fault_at [] 0 = None \<and>
   reply (get_users [] roster) = \<lparr>status = 200, json = JArr [JObj ann, JObj bob, JObj cyd]\<rparr> \<and>
   (\<exists>data. reply (get_users [] roster) = \<lparr>status = 200, json = JArr (map JObj data)\<rparr> \<and>
           mset data = mset (rows (users roster)) \<and>
           sorted (map (order_key ''order'') data)) \<and>
   fault_at [Some outage] 0 = Some outage \<and>
   is_internal_error (reply (get_users [Some outage] roster))"
proof -
  have h: "fault_at [] 0 = None" "fault_at [Some outage] 0 = Some outage" by simp_all
  have v: "reply (get_users [] roster) = \<lparr>status = 200, json = JArr [JObj ann, JObj bob, JObj cyd]\<rparr>"
    by code_simp
  from get_users_sorted [of "[]" roster] get_users_sorted [of "[Some outage]" roster] h v
  show ?thesis by blast
qed

subsection \<open>Creating a user\<close>

text \<open>
  C10. Whenever POST /users inserts a record (it answers 201), the row that is inserted
  and returned is the payload, completed by the store with an \<open>id\<close> if the body has
  none. Its \<open>order\<close> is a value \<open>n\<close> that does not depend on the body, so an \<open>order\<close> sent
  by the caller is overwritten; an \<open>id\<close> sent by the caller is kept as it is; a \<open>checked\<close>
  that is null becomes false.
\<close>

theorem post_users_payload:
  "\<exists>n. \<forall>body. status (reply (post_users fs (Some body) st)) = 201 \<longrightarrow>
     (\<exists>row.
        rows (users (db (post_users fs (Some body) st))) = rows (users st) @ [row] \<and>
        json (reply (post_users fs (Some body) st)) = JObj row \<and>
        row = (case map_of body ''id'' of
                 None \<Rightarrow> (''id'', JNum (next_id (users st))) # payload_of body n
               | Some v \<Rightarrow> payload_of body n) \<and>
        map_of row ''order'' = Some n \<and>
        (\<forall>v. map_of body ''id'' = Some v \<longrightarrow> map_of row ''id'' = Some v) \<and>
        (map_of body ''checked'' = Some JNull \<longrightarrow> map_of row ''checked'' = Some (JBool False)))"
proof (rule exI, rule allI, rule impI)
  fix body
  let ?n = "js_plus_num (lastOrder_of (maxOrderRows_of (users st))) 1"
  let ?row = "stored (users st) (payload_of body ?n)"
  assume "status (reply (post_users fs (Some body) st)) = 201"
  then have ok: "fault_at fs 0 = None" "fault_at fs 1 = None"
    using post_users_created by blast+
  have out: "rows (users (db (post_users fs (Some body) st))) = rows (users st) @ [?row]"
    "json (reply (post_users fs (Some body) st)) = JObj ?row"
    using ok by (simp_all add: post_users_ok Let_def send_json_def)
  have shape: "?row = (case map_of body ''id'' of
                    None \<Rightarrow> (''id'', JNum (next_id (users st))) # payload_of body ?n
                  | Some v \<Rightarrow> payload_of body ?n)"
    by (simp add: stored_def payload_id)
  have "map_of ?row ''order'' = Some ?n"
    by (simp add: map_of_stored payload_order)
  moreover have "\<forall>v. map_of body ''id'' = Some v \<longrightarrow> map_of ?row ''id'' = Some v"
    by (simp add: map_of_stored_id payload_id)
  moreover have "map_of body ''checked'' = Some JNull \<longrightarrow> map_of ?row ''checked'' = Some (JBool False)"
    by (simp add: map_of_stored payload_checked)
  ultimately show "\<exists>row.
           rows (users (db (post_users fs (Some body) st))) = rows (users st) @ [row] \<and>
           json (reply (post_users fs (Some body) st)) = JObj row \<and>
           row = (case map_of body ''id'' of
                    None \<Rightarrow> (''id'', JNum (next_id (users st))) # payload_of body ?n
                  | Some v \<Rightarrow> payload_of body ?n) \<and>
           map_of row ''order'' = Some ?n \<and>
           (\<forall>v. map_of body ''id'' = Some v \<longrightarrow> map_of row ''id'' = Some v) \<and>
           (map_of body ''checked'' = Some JNull \<longrightarrow> map_of row ''checked'' = Some (JBool False))"
    using out shape by (intro exI [of _ ?row]) simp
qed

theorem post_users_payload_witness:
  "status (reply (post_users [] (Some dee) roster)) = 201 \<and>
   map_of dee ''id'' = Some (JNum 7) \<and> map_of dee ''checked'' = Some JNull \<and>
   (\<exists>n row. rows (users (db (post_users [] (Some dee) roster))) = rows (users roster) @ [row] \<and>
      map_of row ''order'' = Some n \<and> map_of row ''id'' = Some (JNum 7) \<and>
      map_of row ''checked'' = Some (JBool False)) \<and>
   json (reply (post_users [] (Some dee) roster)) =
     JObj [(''id'', JNum 7), (''name'', JStr ''Dee''), (''order'', JNum 4), (''checked'', JBool False)]"
proof -
  have h: "status (reply (post_users [] (Some dee) roster)) = 201" by code_simp
  have d: "map_of dee ''id'' = Some (JNum 7)" "map_of dee ''checked'' = Some JNull"
    by (simp_all add: dee_def)
  have v: "json (reply (post_users [] (Some dee) roster)) =
     JObj [(''id'', JNum 7), (''name'', JStr ''Dee''), (''order'', JNum 4), (''checked'', JBool False)]"
    by code_simp
  from post_users_payload [of "[]" roster] obtain n where
    n: "\<And>body. status (reply (post_users [] (Some body) roster)) = 201 \<longrightarrow>
         (\<exists>row. rows (users (db (post_users [] (Some body) roster))) = rows (users roster) @ [row] \<and>
           map_of row ''order'' = Some n \<and>
           (\<forall>v. map_of body ''id'' = Some v \<longrightarrow> map_of row ''id'' = Some v) \<and>
           (map_of body ''checked'' = Some JNull \<longrightarrow> map_of row ''checked'' = Some (JBool False)))"
    by blast
  from n [of dee] d h v show ?thesis by blast
qed



subsection \<open>Creating an attendance record\<close>






subsection \<open>Updating a user\<close>



subsection \<open>Deleting a user\<close>

text \<open>
  C1. Let the users table have its primary key, and let every statement of a
  DELETE /users/:id succeed, the corrective updates included. Then the answer is 200
  with \<open>{success: true}\<close>; the table holds the surviving rows, each with all its fields
  but \<open>order\<close> unchanged; their \<open>order\<close> values are pairwise distinct and form exactly the
  set of the numbers 1 to N, where N is the number of survivors; and a row that came
  strictly before another by its earlier \<open>order\<close> still does.
\<close>

theorem delete_users_dense:
  assumes "primary_key (rows (users st))" and "list_all (\<lambda>f. f = None) fs"
  shows "reply (delete_users fs pid st) = \<lparr>status = 200, json = success_true\<rparr> \<and>
         length (rows (users (db (delete_users fs pid st)))) = length (survivors pid st) \<and>
         (\<lambda>r. map_of r ''order'') ` set (rows (users (db (delete_users fs pid st)))) =
           (\<lambda>n. Some (JNum (int n))) ` {1..length (survivors pid st)} \<and>
         distinct (map (\<lambda>r. map_of r ''order'') (rows (users (db (delete_users fs pid st))))) \<and>
         (\<forall>p < length (survivors pid st). \<forall>k. k \<noteq> ''order'' \<longrightarrow>
            map_of (rows (users (db (delete_users fs pid st))) ! p) k = map_of (survivors pid st ! p) k) \<and>
         (\<forall>p < length (survivors pid st). \<forall>q < length (survivors pid st).
            order_key ''order'' (survivors pid st ! p) < order_key ''order'' (survivors pid st ! q) \<longrightarrow>
            order_key ''order'' (rows (users (db (delete_users fs pid st))) ! p)
              < order_key ''order'' (rows (users (db (delete_users fs pid st))) ! q))"
proof -
  let ?S = "survivors pid st"
  let ?k = "order_key ''order''"
  let ?all = "sort_key ?k ?S"
  let ?ren = "renumber ?all 0"
  let ?U = "rows (users (db (delete_users fs pid st)))"
  let ?N = "length ?S"
  note out = delete_users_ok [OF assms, of pid]
  have U: "?U = map ?ren ?S" by (simp add: out send_json_def)
  have "primary_key ?all"
    unfolding survivors_def by (intro primary_key_sort primary_key_filter assms(1))
  then have pk: "distinct (map id_text_of ?all)"
    by (simp add: primary_key_def)
  have len: "length ?all = ?N" by simp
  have ord: "map_of (?ren (?all ! j)) ''order'' = Some (JNum (int j + 1))" if "j < ?N" for j
    using renumber_nth [OF pk, of j 0] that by simp
  have pos: "\<exists>j < ?N. ?S ! p = ?all ! j" if "p < ?N" for p
  proof -
    from that have "?S ! p \<in> set ?all" by simp
    then show ?thesis by (metis in_set_conv_nth len)
  qed
  have reply: "reply (delete_users fs pid st) = \<lparr>status = 200, json = success_true\<rparr>"
    by (simp add: out send_json_def)
  have length: "length ?U = ?N" by (simp add: U)
  have "(!) ?all ` {0..<?N} = set ?S"
    using nth_image [of "length ?all" ?all] by simp
  then have "set ?U = ?ren ` ((!) ?all ` {0..<?N})" by (simp add: U)
  then have "(\<lambda>r. map_of r ''order'') ` set ?U = (\<lambda>j. map_of (?ren (?all ! j)) ''order'') ` {0..<?N}"
    by (simp only: image_image)
  also have "\<dots> = (\<lambda>j. Some (JNum (int j + 1))) ` {0..<?N}"
    by (intro image_cong refl) (simp add: ord)
  also have "\<dots> = (\<lambda>n. Some (JNum (int n))) ` {1..?N}"
  proof (intro set_eqI iffI)
    fix x assume "x \<in> (\<lambda>j. Some (JNum (int j + 1))) ` {0..<?N}"
    then obtain j where "j < ?N" "x = Some (JNum (int j + 1))" by auto
    then have "Suc j \<in> {1..?N}" "x = Some (JNum (int (Suc j)))" by simp_all
    then show "x \<in> (\<lambda>n. Some (JNum (int n))) ` {1..?N}" by blast
  next
    fix x assume "x \<in> (\<lambda>n. Some (JNum (int n))) ` {1..?N}"
    then obtain n where "1 \<le> n" "n \<le> ?N" "x = Some (JNum (int n))" by auto
    then have "n - 1 \<in> {0..<?N}" "x = Some (JNum (int (n - 1) + 1))" by auto
    then show "x \<in> (\<lambda>j. Some (JNum (int j + 1))) ` {0..<?N}" by blast
  qed
  finally have orders: "(\<lambda>r. map_of r ''order'') ` set ?U = (\<lambda>n. Some (JNum (int n))) ` {1..?N}" .
  have "card ((\<lambda>n. Some (JNum (int n))) ` {1..?N}) = ?N"
    by (subst card_image) (auto simp: inj_on_def)
  then have "card (set (map (\<lambda>r. map_of r ''order'') ?U)) = length (map (\<lambda>r. map_of r ''order'') ?U)"
    using orders length by simp
  then have dist: "distinct (map (\<lambda>r. map_of r ''order'') ?U)" by (rule card_distinct)
  have fields: "\<forall>p < ?N. \<forall>k. k \<noteq> ''order'' \<longrightarrow> map_of (?U ! p) k = map_of (?S ! p) k"
    by (simp add: U renumber_fields)
  have rel: "\<forall>p < ?N. \<forall>q < ?N. ?k (?S ! p) < ?k (?S ! q) \<longrightarrow> ?k (?U ! p) < ?k (?U ! q)"
  proof (intro allI impI)
    fix p q assume p: "p < ?N" and q: "q < ?N" and lt: "?k (?S ! p) < ?k (?S ! q)"
    from pos [OF p] obtain a where a: "a < ?N" "?S ! p = ?all ! a" by blast
    from pos [OF q] obtain b where b: "b < ?N" "?S ! q = ?all ! b" by blast
    from lt have keys: "?k (?all ! a) < ?k (?all ! b)" by (simp only: a(2) b(2))
    have "a < length ?all" "b < length ?all" using a(1) b(1) by (simp_all only: len)
    then have "a < b" using keys by (rule sorted_nth_less [OF sorted_sort_key])
    moreover have "?U ! p = ?ren (?all ! a)" "?U ! q = ?ren (?all ! b)"
      using p q by (simp_all only: U nth_map a(2) b(2))
    then have "?k (?U ! p) = (False, int a + 1)" "?k (?U ! q) = (False, int b + 1)"
      using a(1) b(1) by (simp_all only: ord order_key_num)
    ultimately show "?k (?U ! p) < ?k (?U ! q)" by simp
  qed
  show ?thesis
    by (intro conjI reply length orders dist fields rel)
qed

theorem delete_users_dense_witness:
  "primary_key (rows (users roster)) \<and> list_all (\<lambda>f. f = None) [None, None, None] \<and>
   survivors ''1'' roster = [cyd, bob] \<and>
   rows (users (db (delete_users [None, None, None] ''1'' roster))) =
     [AList.update ''order'' (JNum 2) cyd, AList.update ''order'' (JNum 1) bob] \<and>
   (\<lambda>r. map_of r ''order'') ` set (rows (users (db (delete_users [None, None, None] ''1'' roster)))) =
     (\<lambda>n. Some (JNum (int n))) ` {1..length (survivors ''1'' roster)} \<and>
   map_of (rows (users (db (delete_users [None, None, None] ''1'' roster))) ! 0) ''name'' =
     map_of (survivors ''1'' roster ! 0) ''name'' \<and>
   order_key ''order'' (survivors ''1'' roster ! 1) < order_key ''order'' (survivors ''1'' roster ! 0) \<and>
   order_key ''order'' (rows (users (db (delete_users [None, None, None] ''1'' roster))) ! 1)
     < order_key ''order'' (rows (users (db (delete_users [None, None, None] ''1'' roster))) ! 0)"
proof -
  have pk: "primary_key (rows (users roster))" by code_simp
  have ok: "list_all (\<lambda>f. f = None) [None, None, None]" by simp
  have s: "survivors ''1'' roster = [cyd, bob]" by code_simp
  have v: "rows (users (db (delete_users [None, None, None] ''1'' roster))) =
     [AList.update ''order'' (JNum 2) cyd, AList.update ''order'' (JNum 1) bob]" by code_simp
  have lt: "order_key ''order'' (survivors ''1'' roster ! 1) < order_key ''order'' (survivors ''1'' roster ! 0)"
    by code_simp
  have n: "(1::nat) < length (survivors ''1'' roster)" "(0::nat) < length (survivors ''1'' roster)"
    by (simp_all add: s)
  have k: "''name'' \<noteq> ''order''" by simp
  note T = delete_users_dense [OF pk ok, of "''1''"]
  note orders = T [THEN conjunct2, THEN conjunct2, THEN conjunct1]
  note fields = T [THEN conjunct2, THEN conjunct2, THEN conjunct2, THEN conjunct2, THEN conjunct1,
      rule_format, OF n(2) k]
  note rel = T [THEN conjunct2, THEN conjunct2, THEN conjunct2, THEN conjunct2, THEN conjunct2,
      rule_format, OF n(1) n(2) lt]
  show ?thesis
    by (intro conjI pk ok s v orders fields lt rel)
qed

end
